theory Spec2Isabelle
  imports Complex_Main
begin

section \<open>Numbers\<close>

text \<open>
  Python's \<^verbatim>\<open>float\<close> values are modelled as real numbers: every arithmetic
  operation of the source is the exact operation on \<^typ>\<open>real\<close>, with no rounding
  error. \<^verbatim>\<open>max\<close> and \<^verbatim>\<open>min\<close> are exact on floats as well.

  \<^verbatim>\<open>round(x, n)\<close> rounds to \<open>n\<close> decimals, ties going to the even neighbour;
  \<^verbatim>\<open>int(x)\<close> truncates towards zero.
\<close>

definition round_half_even :: "real \<Rightarrow> int" where
  "round_half_even y =
     (let f = \<lfloor>y\<rfloor>; d = y - of_int f
      in if d < 1 / 2 then f
         else if 1 / 2 < d then f + 1
         else if even f then f else f + 1)"

definition py_round :: "real \<Rightarrow> nat \<Rightarrow> real" where
  "py_round x n = of_int (round_half_even (x * 10 ^ n)) / 10 ^ n"

definition py_int :: "real \<Rightarrow> int" where
  "py_int x = (if 0 \<le> x then \<lfloor>x\<rfloor> else \<lceil>x\<rceil>)"

section \<open>The main window of \<^verbatim>\<open>GCS_MODEL.py\<close> and its timer-driven simulation\<close>

subsection \<open>The telemetry dictionary and the three widgets that receive it\<close>

text \<open>
  The dictionary built by \<^verbatim>\<open>_simulate_telemetry\<close>, with its six keys.
\<close>

record telemetry_dict =
  battery :: real
  speed :: real
  distance :: real
  lat :: real
  lon :: real
  temp :: real

text \<open>
  A line of the mission log. The source formats the numbers of a telemetry line into a
  string; the model keeps the three numbers that are formatted (battery, speed,
  distance) instead of their decimal rendering.
\<close>

datatype log_entry = LogText string | LogTelemetry real real real

text \<open>
  \<^verbatim>\<open>TelemetryPanel\<close>: the six value labels (here the dictionary last shown), the
  battery bar and the quick-status text, a list of (time string, battery) lines.
\<close>

record TelemetryPanel =
  panel_values :: "telemetry_dict option"
  batt_bar :: int
  small_status :: "(string \<times> real) list"

text \<open>
  \<^verbatim>\<open>MapWidget\<close>: position, lock flag, and the \<^verbatim>\<open>updateRover(lat, lon, locked)\<close>
  calls sent to the page (each call moves the marker and appends to the path).
\<close>

record MapWidget =
  map_lat :: real
  map_lon :: real
  locked :: bool
  js_calls :: "(real \<times> real \<times> bool) list"

text \<open>\<^verbatim>\<open>LogWidget\<close>: the terminal, a list of (time string, entry) lines.\<close>

record LogWidget =
  terminal :: "(string \<times> log_entry) list"

definition panel_update :: "string \<Rightarrow> telemetry_dict \<Rightarrow> TelemetryPanel \<Rightarrow> TelemetryPanel" where
  "panel_update now t p =
     p\<lparr>panel_values := Some t,
       batt_bar := py_int (battery t),
       small_status := small_status p @ [(now, battery t)]\<rparr>"

definition update_position :: "bool \<Rightarrow> real \<Rightarrow> real \<Rightarrow> MapWidget \<Rightarrow> MapWidget" where
  "update_position webengine la lo m =
     (let m1 = m\<lparr>map_lat := la, map_lon := lo\<rparr>
      in if webengine then m1\<lparr>js_calls := js_calls m1 @ [(la, lo, locked m1)]\<rparr> else m1)"

definition set_locked :: "bool \<Rightarrow> bool \<Rightarrow> MapWidget \<Rightarrow> MapWidget" where
  "set_locked webengine b m =
     (let m1 = m\<lparr>locked := b\<rparr> in update_position webengine (map_lat m1) (map_lon m1) m1)"

definition log_widget_log :: "string \<Rightarrow> log_entry \<Rightarrow> LogWidget \<Rightarrow> LogWidget" where
  "log_widget_log now e l = l\<lparr>terminal := terminal l @ [(now, e)]\<rparr>"

subsection \<open>The window\<close>

record MainWindow =
  sim_lat :: real
  sim_lon :: real
  sim_distance :: real
  sim_battery :: real
  sim_speed :: real
  sim_temp :: real
  telemetry :: TelemetryPanel
  map_widget :: MapWidget
  log_widget :: LogWidget

text \<open>
  The state at the end of \<^verbatim>\<open>MainWindow.__init__\<close>; \<open>now\<close> is the time string of the
  two initial log lines.
\<close>

definition MainWindow_init :: "string \<Rightarrow> MainWindow" where
  "MainWindow_init now =
     \<lparr>sim_lat = 28.6, sim_lon = 77.2, sim_distance = 0, sim_battery = 100,
      sim_speed = 0, sim_temp = 25,
      telemetry = \<lparr>panel_values = None, batt_bar = 100, small_status = []\<rparr>,
      map_widget = \<lparr>map_lat = 28.6, map_lon = 77.2, locked = False, js_calls = []\<rparr>,
      log_widget = \<lparr>terminal = [(now, LogText ''GCS Started''),
                                 (now, LogText ''Map & cameras initialized'')]\<rparr>\<rparr>"

subsection \<open>What a handler reads from outside the window\<close>

datatype sink = TelemetrySink | MapSink | LogSink

datatype exn = SinkRaised sink

text \<open>
  Everything a timer or button handler of the window reads from its environment:
  the position of the speed slider (\<^verbatim>\<open>setRange(0, 255)\<close>), the three
  \<^verbatim>\<open>np.random.randn()\<close> draws in the order the source makes them, the
  \<^verbatim>\<open>time.strftime\<close> string, the module constant \<^verbatim>\<open>WEBENGINE_AVAILABLE\<close>, and, for each
  widget, whether a call of its method raises there (the source's widget methods raise
  nothing themselves; a wrapped Qt object can).
\<close>

record gcs_env =
  slider :: int
  randn_lat :: real
  randn_lon :: real
  randn_temp :: real
  strftime :: string
  webengine :: bool
  raises :: "sink \<Rightarrow> bool"

definition slider_ok :: "gcs_env \<Rightarrow> bool" where
  "slider_ok e = (0 \<le> slider e \<and> slider e \<le> 255)"

subsection \<open>\<^verbatim>\<open>_simulate_telemetry\<close>\<close>

text \<open>Lines 520 to 526: the update of the six simulation fields.\<close>

definition advance :: "gcs_env \<Rightarrow> MainWindow \<Rightarrow> MainWindow" where
  "advance e w =
     (let step = (real_of_int (slider e) / 255) * 0.0004;
          w1 = w\<lparr>sim_lat := sim_lat w + (step + randn_lat e * 0.000001)\<rparr>;
          w2 = w1\<lparr>sim_lon := sim_lon w1 + (step + randn_lon e * 0.000001)\<rparr>;
          w3 = w2\<lparr>sim_distance := sim_distance w2 + step * 111000\<rparr>;
          w4 = w3\<lparr>sim_speed := (real_of_int (slider e) / 255) * 1.5\<rparr>;
          w5 = w4\<lparr>sim_battery := max 0 (sim_battery w4 - sim_speed w4 * 0.02 - 0.05)\<rparr>
      in w5\<lparr>sim_temp := 20 + randn_temp e * 0.5\<rparr>)"

text \<open>Lines 528 to 535: the dictionary handed to the widgets.\<close>

definition snapshot :: "MainWindow \<Rightarrow> telemetry_dict" where
  "snapshot w =
     \<lparr>battery = py_round (sim_battery w) 1,
      speed = py_round (sim_speed w) 2,
      distance = py_round (sim_distance w) 1,
      lat = sim_lat w,
      lon = sim_lon w,
      temp = py_round (sim_temp w) 1\<rparr>"

text \<open>What each widget is handed in one call.\<close>

datatype observation =
  PanelObs telemetry_dict
| MapObs real real
| LogObs log_entry

type_synonym delivery = "sink \<times> observation"

text \<open>
  Lines 536 to 538: three calls in a row, none inside a \<^verbatim>\<open>try\<close>. A call that raises
  ends the handler: the later calls are not made, and what was assigned before stays
  assigned. The result is the window, the calls that returned (oldest first), and the
  exception that left the handler, if any.
\<close>

definition simulate_telemetry ::
  "gcs_env \<Rightarrow> MainWindow \<Rightarrow> MainWindow \<times> delivery list \<times> exn option" where
  "simulate_telemetry e w =
     (let w1 = advance e w;
          t = snapshot w1
      in if raises e TelemetrySink then (w1, [], Some (SinkRaised TelemetrySink))
         else
           let w2 = w1\<lparr>telemetry := panel_update (strftime e) t (telemetry w1)\<rparr>;
               d2 = [(TelemetrySink, PanelObs t)]
           in if raises e MapSink then (w2, d2, Some (SinkRaised MapSink))
              else
                let w3 = w2\<lparr>map_widget :=
                            update_position (webengine e) (sim_lat w2) (sim_lon w2) (map_widget w2)\<rparr>;
                    d3 = d2 @ [(MapSink, MapObs (sim_lat w2) (sim_lon w2))];
                    entry = LogTelemetry (battery t) (speed t) (distance t)
                in if raises e LogSink then (w3, d3, Some (SinkRaised LogSink))
                   else
                     (w3\<lparr>log_widget := log_widget_log (strftime e) entry (log_widget w3)\<rparr>,
                      d3 @ [(LogSink, LogObs entry)],
                      None))"

subsection \<open>\<^verbatim>\<open>_reload_rover\<close>\<close>

definition home_lat :: real where "home_lat = 28.6"

definition home_lon :: real where "home_lon = 77.2"

definition reload_rover ::
  "gcs_env \<Rightarrow> MainWindow \<Rightarrow> MainWindow \<times> delivery list \<times> exn option" where
  "reload_rover e w =
     (let w1 = w\<lparr>sim_lat := home_lat, sim_lon := home_lon\<rparr>;
          w2 = w1\<lparr>sim_distance := 0\<rparr>;
          w3 = w2\<lparr>sim_battery := 100\<rparr>;
          w4 = w3\<lparr>sim_speed := 0\<rparr>;
          entry = LogText ''Rover reloaded / reset to home position''
      in if raises e LogSink then (w4, [], Some (SinkRaised LogSink))
         else
           let w5 = w4\<lparr>log_widget := log_widget_log (strftime e) entry (log_widget w4)\<rparr>;
               d5 = [(LogSink, LogObs entry)]
           in if raises e MapSink then (w5, d5, Some (SinkRaised MapSink))
              else
                (w5\<lparr>map_widget :=
                      update_position (webengine e) (sim_lat w5) (sim_lon w5) (map_widget w5)\<rparr>,
                 d5 @ [(MapSink, MapObs (sim_lat w5) (sim_lon w5))],
                 None))"

subsection \<open>Runs of the window\<close>

text \<open>
  The window is driven by the 1500 ms timer and by the Reload button, both on the one
  thread of the Qt event loop, so handlers run one after the other. The source installs
  no exception hook, and PyQt5 aborts the application on an exception that leaves a
  slot: such an exception ends the run.
\<close>

datatype gcs_event = Tick gcs_env | Reload gcs_env

fun handle :: "gcs_event \<Rightarrow> MainWindow \<Rightarrow> MainWindow \<times> delivery list \<times> exn option" where
  "handle (Tick e) w = simulate_telemetry e w"
| "handle (Reload e) w = reload_rover e w"

fun run_gcs :: "gcs_event list \<Rightarrow> MainWindow \<Rightarrow> MainWindow \<times> delivery list \<times> exn option" where
  "run_gcs [] w = (w, [], None)"
| "run_gcs (ev # evs) w =
     (case handle ev w of
        (w1, ds, Some x) \<Rightarrow> (w1, ds, Some x)
      | (w1, ds, None) \<Rightarrow>
          (case run_gcs evs w1 of (w2, ds2, r) \<Rightarrow> (w2, ds @ ds2, r)))"

text \<open>The dictionaries that reached the telemetry panel, oldest first.\<close>

fun snapshots_of :: "delivery list \<Rightarrow> telemetry_dict list" where
  "snapshots_of [] = []"
| "snapshots_of ((s, PanelObs t) # ds) = t # snapshots_of ds"
| "snapshots_of ((s, MapObs la lo) # ds) = snapshots_of ds"
| "snapshots_of ((s, LogObs l) # ds) = snapshots_of ds"

definition event_ok :: "gcs_event \<Rightarrow> bool" where
  "event_ok ev = (case ev of Tick e \<Rightarrow> slider_ok e | Reload e \<Rightarrow> True)"

text \<open>A handler in which no widget call raises.\<close>

definition quiet :: "gcs_env \<Rightarrow> bool" where
  "quiet e = (\<not> raises e TelemetrySink \<and> \<not> raises e MapSink \<and> \<not> raises e LogSink)"

text \<open>
  The three calls of one tick, in the order of lines 536 to 538, for the dictionary \<open>t\<close>:
  the panel is handed \<open>t\<close>, the map its \<open>lat\<close> and \<open>lon\<close>, the log its rounded
  battery, speed and distance.
\<close>

definition notifications :: "telemetry_dict \<Rightarrow> delivery list" where
  "notifications t =
     [(TelemetrySink, PanelObs t),
      (MapSink, MapObs (lat t) (lon t)),
      (LogSink, LogObs (LogTelemetry (battery t) (speed t) (distance t)))]"

text \<open>What the simulation reads of a tick's environment: the slider and the three draws.\<close>

definition sim_inputs :: "gcs_env \<Rightarrow> int \<times> real \<times> real \<times> real" where
  "sim_inputs e = (slider e, randn_lat e, randn_lon e, randn_temp e)"

text \<open>Two numbers that agree to within a hundredth, the precision the scenarios are given in.\<close>

definition approx :: "real \<Rightarrow> real \<Rightarrow> bool" where
  "approx x y = (\<bar>x - y\<bar> < 1 / 100)"

section \<open>The telemetry simulator of \<^verbatim>\<open>GCS_MODEL_1.py\<close>\<close>

text \<open>The dictionary emitted through \<^verbatim>\<open>telemetry_updated\<close>.\<close>

record payload =
  timestamp :: real
  payload_battery :: real
  payload_speed :: real
  payload_distance :: real
  payload_temp :: real
  gps :: "real \<times> real"

text \<open>
  The fields \<^verbatim>\<open>_run\<close>, \<^verbatim>\<open>_dist\<close>, \<^verbatim>\<open>_battery\<close> and \<^verbatim>\<open>_speed\<close> of
  \<^verbatim>\<open>TelemetrySimulator\<close>, as \<^verbatim>\<open>__init__\<close> sets them.
\<close>

record TelemetrySimulator =
  priv_run :: bool
  priv_dist :: real
  priv_battery :: real
  priv_speed :: real

definition TelemetrySimulator_init :: TelemetrySimulator where
  "TelemetrySimulator_init =
     \<lparr>priv_run = True, priv_dist = 0, priv_battery = 100, priv_speed = 0\<rparr>"

text \<open>
  What one pass of the loop body reads from outside: four \<^verbatim>\<open>np.random.randn()\<close> draws
  (speed, temperature, the two of \<^verbatim>\<open>gps\<close>) and \<^verbatim>\<open>time.time()\<close>.
\<close>

record loop_env =
  randn_speed :: real
  randn_tmp :: real
  randn_gps0 :: real
  randn_gps1 :: real
  time_time :: real

text \<open>Lines 106 to 116: one pass of the body of \<^verbatim>\<open>while self._run\<close>.\<close>

definition loop_body :: "loop_env \<Rightarrow> TelemetrySimulator \<Rightarrow> TelemetrySimulator \<times> payload" where
  "loop_body e s =
     (let s1 = s\<lparr>priv_speed := max 0 (min 2.5 (priv_speed s + randn_speed e * 0.05))\<rparr>;
          s2 = s1\<lparr>priv_dist := priv_dist s1 + priv_speed s1 * 0.1\<rparr>;
          s3 = s2\<lparr>priv_battery := max 0 (priv_battery s2 - 0.01 - \<bar>priv_speed s2\<bar> * 0.001)\<rparr>
      in (s3,
          \<lparr>timestamp = time_time e,
           payload_battery = py_round (priv_battery s3) 1,
           payload_speed = py_round (priv_speed s3) 2,
           payload_distance = py_round (priv_dist s3) 2,
           payload_temp = py_round (20 + randn_tmp e) 1,
           gps = (77.2 + randn_gps0 e * 0.0001, 28.6 + randn_gps1 e * 0.0001)\<rparr>))"

text \<open>
  The simulator together with the loop threads that \<^verbatim>\<open>start\<close> has spawned and that
  have not left their loop. \<^verbatim>\<open>start\<close> spawns a thread and does nothing else;
  \<^verbatim>\<open>stop\<close> clears \<^verbatim>\<open>_run\<close> and does nothing else. A thread's step is one
  evaluation of the loop condition followed, when it holds, by one pass of the body and
  the emission of its payload; steps of different threads, and calls of \<^verbatim>\<open>start\<close>
  and \<^verbatim>\<open>stop\<close>, are taken one at a time (a pass counts as taken when its loop
  condition is evaluated). The loop of a running simulator never ends by itself, so a
  run is given by the finite list of the steps and calls made so far.
\<close>

record tele_world =
  tele :: TelemetrySimulator
  loop_threads :: nat

definition tele_world_init :: tele_world where
  "tele_world_init = \<lparr>tele = TelemetrySimulator_init, loop_threads = 0\<rparr>"

definition start :: "tele_world \<Rightarrow> tele_world" where
  "start w = w\<lparr>loop_threads := Suc (loop_threads w)\<rparr>"

definition stop :: "tele_world \<Rightarrow> tele_world" where
  "stop w = w\<lparr>tele := (tele w)\<lparr>priv_run := False\<rparr>\<rparr>"

definition loop_iter :: "loop_env \<Rightarrow> tele_world \<Rightarrow> tele_world \<times> payload list" where
  "loop_iter e w =
     (if loop_threads w = 0 then (w, [])
      else if priv_run (tele w)
           then (case loop_body e (tele w) of (s, p) \<Rightarrow> (w\<lparr>tele := s\<rparr>, [p]))
           else (w\<lparr>loop_threads := loop_threads w - 1\<rparr>, []))"

datatype tele_event = CallStart | CallStop | LoopIter loop_env

fun tele_step :: "tele_event \<Rightarrow> tele_world \<Rightarrow> tele_world \<times> payload list" where
  "tele_step CallStart w = (start w, [])"
| "tele_step CallStop w = (stop w, [])"
| "tele_step (LoopIter e) w = loop_iter e w"

fun run_tele :: "tele_event list \<Rightarrow> tele_world \<Rightarrow> tele_world \<times> payload list" where
  "run_tele [] w = (w, [])"
| "run_tele (ev # evs) w =
     (case tele_step ev w of (w1, ps) \<Rightarrow>
        (case run_tele evs w1 of (w2, ps2) \<Rightarrow> (w2, ps @ ps2)))"

text \<open>The clock readings of a run, and a run with its clock readings blanked.\<close>

fun clock_readings :: "tele_event list \<Rightarrow> real list" where
  "clock_readings [] = []"
| "clock_readings (LoopIter e # evs) = time_time e # clock_readings evs"
| "clock_readings (CallStart # evs) = clock_readings evs"
| "clock_readings (CallStop # evs) = clock_readings evs"

fun no_clock :: "tele_event \<Rightarrow> tele_event" where
  "no_clock (LoopIter e) = LoopIter (e\<lparr>time_time := 0\<rparr>)"
| "no_clock CallStart = CallStart"
| "no_clock CallStop = CallStop"

definition no_timestamp :: "payload \<Rightarrow> payload" where
  "no_timestamp p = p\<lparr>timestamp := 0\<rparr>"

section \<open>The guarded starts of \<^verbatim>\<open>Rover_drone_controlller.py\<close> and \<^verbatim>\<open>Frame_analysis.py\<close>\<close>

text \<open>
  \<^verbatim>\<open>FPVController\<close>: the flag \<^verbatim>\<open>_running\<close>, whether the telemetry timer is active,
  whether \<^verbatim>\<open>cap\<close> holds a capture, the video threads spawned so far, the text of the
  video label, and the two text areas \<^verbatim>\<open>_log\<close> appends to.
\<close>

record FPVController =
  fpv_running :: bool
  timer_active :: bool
  cap :: bool
  video_threads :: nat
  video_label :: string
  log_area :: "string list"
  telemetry_text :: "string list"

definition fpv_log :: "string \<Rightarrow> FPVController \<Rightarrow> FPVController" where
  "fpv_log text c = c\<lparr>log_area := log_area c @ [text], telemetry_text := telemetry_text c @ [text]\<rparr>"

definition start_video_thread :: "FPVController \<Rightarrow> FPVController" where
  "start_video_thread c =
     (let c1 = (if \<not> cap c then c\<lparr>cap := True\<rparr> else c)
      in c1\<lparr>video_threads := Suc (video_threads c1)\<rparr>)"

definition activate :: "FPVController \<Rightarrow> FPVController" where
  "activate c =
     (if \<not> fpv_running c
      then fpv_log ''>>> FPV Controller Activated <<<''
             (start_video_thread (c\<lparr>fpv_running := True, timer_active := True\<rparr>))
      else c)"

definition deactivate :: "FPVController \<Rightarrow> FPVController" where
  "deactivate c =
     fpv_log ''>>> FPV Controller Deactivated <<<''
       (c\<lparr>fpv_running := False, timer_active := False, cap := False,
          video_label := ''Video Stream''\<rparr>)"

text \<open>
  \<^verbatim>\<open>MultiViewModule\<close>: the flag \<^verbatim>\<open>running\<close>, the sources of the captures held in
  \<^verbatim>\<open>captures\<close>, and the frame threads spawned so far.
\<close>

record MultiViewModule =
  running :: bool
  captures :: "nat list"
  frame_threads :: nat

definition start_capture :: "MultiViewModule \<Rightarrow> MultiViewModule" where
  "start_capture m =
     (if running m then m
      else m\<lparr>running := True, captures := [0, 0, 0], frame_threads := frame_threads m + 3\<rparr>)"

definition stop_capture :: "MultiViewModule \<Rightarrow> MultiViewModule" where
  "stop_capture m = m\<lparr>running := False, captures := []\<rparr>"

text \<open>The six simulation fields of the window.\<close>

definition sim_fields :: "MainWindow \<Rightarrow> real \<times> real \<times> real \<times> real \<times> real \<times> real" where
  "sim_fields w = (sim_lat w, sim_lon w, sim_distance w, sim_battery w, sim_speed w, sim_temp w)"

section \<open>The ranges of battery and speed\<close>

text \<open>
  Battery between 0 and 100 and speed between 0 and the maximum (1.5 in
  \<^verbatim>\<open>GCS_MODEL.py\<close>, 2.5 in \<^verbatim>\<open>GCS_MODEL_1.py\<close>), for the simulation fields and for the
  published dictionaries.
\<close>

definition window_ok :: "MainWindow \<Rightarrow> bool" where
  "window_ok w = (0 \<le> sim_battery w \<and> sim_battery w \<le> 100 \<and> 0 \<le> sim_speed w \<and> sim_speed w \<le> 1.5)"

definition snapshot_ok :: "telemetry_dict \<Rightarrow> bool" where
  "snapshot_ok t = (0 \<le> battery t \<and> battery t \<le> 100 \<and> 0 \<le> speed t \<and> speed t \<le> 1.5)"

definition simulator_ok :: "TelemetrySimulator \<Rightarrow> bool" where
  "simulator_ok s = (0 \<le> priv_battery s \<and> priv_battery s \<le> 100 \<and> 0 \<le> priv_speed s \<and> priv_speed s \<le> 2.5)"

definition payload_ok :: "payload \<Rightarrow> bool" where
  "payload_ok p = (0 \<le> payload_battery p \<and> payload_battery p \<le> 100
                   \<and> 0 \<le> payload_speed p \<and> payload_speed p \<le> 2.5)"

section \<open>Concrete inputs\<close>

text \<open>The speed lever fully forward, no noise, no widget failing.\<close>

definition full_throttle :: gcs_env where
  "full_throttle =
     \<lparr>slider = 255, randn_lat = 0, randn_lon = 0, randn_temp = 0,
      strftime = ''12:00:00'', webengine = True, raises = (\<lambda>s. False)\<rparr>"

text \<open>The speed lever at rest.\<close>

definition idle :: gcs_env where
  "idle = full_throttle\<lparr>slider := 0\<rparr>"

text \<open>The telemetry panel raising in its \<^verbatim>\<open>update\<close>.\<close>

definition panel_fails :: gcs_env where
  "panel_fails = full_throttle\<lparr>raises := (\<lambda>s. s = TelemetrySink)\<rparr>"

text \<open>A pass of the simulator's loop with no noise, at clock reading 10.\<close>

definition calm :: loop_env where
  "calm = \<lparr>randn_speed = 0, randn_tmp = 0, randn_gps0 = 0, randn_gps1 = 0, time_time = 10\<rparr>"

section \<open>Rounding\<close>

lemma rhe_lower: "\<lfloor>y\<rfloor> \<le> round_half_even y"
  by (simp add: round_half_even_def Let_def)

lemma rhe_upper: "round_half_even y \<le> \<lfloor>y\<rfloor> + 1"
  by (simp add: round_half_even_def Let_def)

lemma rhe_of_int: "round_half_even (of_int k) = k"
  by (simp add: round_half_even_def Let_def)

lemma rhe_ge: assumes "of_int k \<le> y" shows "k \<le> round_half_even y"
proof -
  from assms have "k \<le> \<lfloor>y\<rfloor>" by (simp add: le_floor_iff)
  with rhe_lower [of y] show ?thesis by linarith
qed

lemma rhe_le: assumes "y \<le> of_int k" shows "round_half_even y \<le> k"
proof (cases "y = of_int k")
  case True
  then show ?thesis by (simp add: rhe_of_int)
next
  case False
  with assms have "y < of_int k" by simp
  then have "\<lfloor>y\<rfloor> < k" by (simp add: floor_less_iff)
  with rhe_upper [of y] show ?thesis by linarith
qed

lemma rhe_mono: assumes "x \<le> y" shows "round_half_even x \<le> round_half_even y"
proof (cases "\<lfloor>x\<rfloor> = \<lfloor>y\<rfloor>")
  case True
  with assms show ?thesis
    by (auto simp: round_half_even_def Let_def)
next
  case False
  moreover from assms have "\<lfloor>x\<rfloor> \<le> \<lfloor>y\<rfloor>" by (rule floor_mono)
  ultimately have "\<lfloor>x\<rfloor> + 1 \<le> \<lfloor>y\<rfloor>" by simp
  with rhe_upper [of x] rhe_lower [of y] show ?thesis by linarith
qed

lemma py_round_mono: "x \<le> y \<Longrightarrow> py_round x n \<le> py_round y n"
  unfolding py_round_def
  by (intro divide_right_mono) (auto intro!: rhe_mono mult_right_mono)

lemma py_round_ge: assumes "of_int k / 10 ^ n \<le> x" shows "of_int k / 10 ^ n \<le> py_round x n"
proof -
  from assms have "of_int k \<le> x * 10 ^ n" by (simp add: field_simps)
  then have "k \<le> round_half_even (x * 10 ^ n)" by (rule rhe_ge)
  then show ?thesis unfolding py_round_def by (simp add: divide_right_mono)
qed

lemma py_round_le: assumes "x \<le> of_int k / 10 ^ n" shows "py_round x n \<le> of_int k / 10 ^ n"
proof -
  from assms have "x * 10 ^ n \<le> of_int k" by (simp add: field_simps)
  then have "round_half_even (x * 10 ^ n) \<le> k" by (rule rhe_le)
  then show ?thesis unfolding py_round_def by (simp add: divide_right_mono)
qed

lemma py_round_nonneg: "0 \<le> x \<Longrightarrow> 0 \<le> py_round x n"
  using py_round_ge [of 0 n x] by simp

lemma py_round_le_100: "x \<le> 100 \<Longrightarrow> py_round x 1 \<le> 100"
  using py_round_le [of x 1000 1] by simp

lemma py_round_le_15: "x \<le> 1.5 \<Longrightarrow> py_round x 2 \<le> 1.5"
  using py_round_le [of x 150 2] by simp

lemma py_round_le_25: "x \<le> 2.5 \<Longrightarrow> py_round x 2 \<le> 2.5"
  using py_round_le [of x 250 2] by simp

subsection \<open>One pass of \<^verbatim>\<open>_simulate_telemetry\<close>: the simulation fields\<close>

lemma advance_sim_speed: "sim_speed (advance e w) = real_of_int (slider e) / 255 * 1.5"
  by (simp add: advance_def Let_def)

lemma advance_sim_distance:
  "sim_distance (advance e w) = sim_distance w + real_of_int (slider e) / 255 * 0.0004 * 111000"
  by (simp add: advance_def Let_def)

lemma advance_sim_battery:
  "sim_battery (advance e w) = max 0 (sim_battery w - sim_speed (advance e w) * 0.02 - 0.05)"
  by (simp add: advance_def Let_def)

lemma advance_sim_temp: "sim_temp (advance e w) = 20 + randn_temp e * 0.5"
  by (simp add: advance_def Let_def)

lemma advance_widgets:
  "telemetry (advance e w) = telemetry w"
  "map_widget (advance e w) = map_widget w"
  "log_widget (advance e w) = log_widget w"
  by (simp_all add: advance_def Let_def)

lemma advance_speed_range:
  assumes "slider_ok e"
  shows "0 \<le> sim_speed (advance e w)" and "sim_speed (advance e w) \<le> 1.5"
  using assms by (simp_all add: advance_sim_speed slider_ok_def)

lemma advance_battery_range:
  assumes "slider_ok e" and "sim_battery w \<le> 100"
  shows "0 \<le> sim_battery (advance e w)" and "sim_battery (advance e w) \<le> 100"
proof -
  show "0 \<le> sim_battery (advance e w)" by (simp add: advance_sim_battery)
  from advance_speed_range(1) [OF assms(1), of w] assms(2)
  show "sim_battery (advance e w) \<le> 100" by (simp add: advance_sim_battery)
qed

lemma advance_distance_mono:
  assumes "slider_ok e" shows "sim_distance w \<le> sim_distance (advance e w)"
  using assms by (simp add: advance_sim_distance slider_ok_def)

subsection \<open>One pass of \<^verbatim>\<open>_simulate_telemetry\<close>: the calls of the widgets\<close>

lemma simulate_telemetry_sim_fields:
  "sim_lat (fst (simulate_telemetry e w)) = sim_lat (advance e w)"
  "sim_lon (fst (simulate_telemetry e w)) = sim_lon (advance e w)"
  "sim_distance (fst (simulate_telemetry e w)) = sim_distance (advance e w)"
  "sim_battery (fst (simulate_telemetry e w)) = sim_battery (advance e w)"
  "sim_speed (fst (simulate_telemetry e w)) = sim_speed (advance e w)"
  "sim_temp (fst (simulate_telemetry e w)) = sim_temp (advance e w)"
  by (simp_all add: simulate_telemetry_def Let_def)

lemma simulate_telemetry_deliveries:
  "fst (snd (simulate_telemetry e w))
   = takeWhile (\<lambda>d. \<not> raises e (fst d)) (notifications (snapshot (advance e w)))"
  by (simp add: simulate_telemetry_def Let_def notifications_def snapshot_def)

lemma simulate_telemetry_exn:
  "snd (snd (simulate_telemetry e w))
   = map_option SinkRaised (find (raises e) [TelemetrySink, MapSink, LogSink])"
  by (simp add: simulate_telemetry_def Let_def)

lemma simulate_telemetry_quiet:
  assumes "quiet e"
  shows "simulate_telemetry e w =
    ((advance e w)\<lparr>
        telemetry := panel_update (strftime e) (snapshot (advance e w)) (telemetry w),
        map_widget := update_position (webengine e) (sim_lat (advance e w))
                        (sim_lon (advance e w)) (map_widget w),
        log_widget := log_widget_log (strftime e)
                        (LogTelemetry (battery (snapshot (advance e w)))
                           (speed (snapshot (advance e w))) (distance (snapshot (advance e w))))
                        (log_widget w)\<rparr>,
     notifications (snapshot (advance e w)),
     None)"
  using assms
  by (simp add: simulate_telemetry_def Let_def quiet_def notifications_def snapshot_def advance_widgets)

lemma snapshots_of_append: "snapshots_of (xs @ ys) = snapshots_of xs @ snapshots_of ys"
  by (induction xs rule: snapshots_of.induct) simp_all

lemma snapshots_of_notifications: "snapshots_of (notifications t) = [t]"
  by (simp add: notifications_def)

lemma simulate_telemetry_snapshots:
  "snapshots_of (fst (snd (simulate_telemetry e w)))
   = (if raises e TelemetrySink then [] else [snapshot (advance e w)])"
  by (simp add: simulate_telemetry_def Let_def)

lemma reload_rover_snapshots: "snapshots_of (fst (snd (reload_rover e w))) = []"
  by (simp add: reload_rover_def Let_def)

lemma reload_rover_sim_fields:
  "sim_lat (fst (reload_rover e w)) = home_lat"
  "sim_lon (fst (reload_rover e w)) = home_lon"
  "sim_distance (fst (reload_rover e w)) = 0"
  "sim_battery (fst (reload_rover e w)) = 100"
  "sim_speed (fst (reload_rover e w)) = 0"
  "sim_temp (fst (reload_rover e w)) = sim_temp w"
  "telemetry (fst (reload_rover e w)) = telemetry w"
  by (simp_all add: reload_rover_def Let_def)

lemma run_gcs_ticks_quiet:
  assumes "list_all quiet es"
  shows "snd (snd (run_gcs (map Tick es) w)) = None
    \<and> length (snapshots_of (fst (snd (run_gcs (map Tick es) w)))) = length es
    \<and> fst (snd (run_gcs (map Tick es) w))
        = concat (map notifications (snapshots_of (fst (snd (run_gcs (map Tick es) w)))))"
  using assms
proof (induction es arbitrary: w)
  case Nil
  show ?case by simp
next
  case (Cons e es)
  then have q: "quiet e" and qs: "list_all quiet es" by simp_all
  note step = simulate_telemetry_quiet [OF q, of w]
  note ih = Cons.IH [OF qs]
  show ?case
    by (simp add: step ih snapshots_of_append snapshots_of_notifications split: prod.splits)
       (metis ih fst_conv snd_conv)
qed

subsection \<open>Ranges along a run of the window\<close>

lemma window_ok_init: "window_ok (MainWindow_init now)"
  by (simp add: window_ok_def MainWindow_init_def)

lemma window_ok_advance:
  assumes "slider_ok e" and "window_ok w"
  shows "window_ok (advance e w)"
  using advance_speed_range [OF assms(1), of w] advance_battery_range [OF assms(1), of w] assms(2)
  by (simp add: window_ok_def)

lemma snapshot_ok_snapshot:
  assumes "window_ok w" shows "snapshot_ok (snapshot w)"
proof -
  from assms have b: "0 \<le> sim_battery w" "sim_battery w \<le> 100"
    and v: "0 \<le> sim_speed w" "sim_speed w \<le> 1.5"
    by (auto simp only: window_ok_def)
  from py_round_nonneg [OF b(1), of 1] py_round_le_100 [OF b(2)]
    py_round_nonneg [OF v(1), of 2] py_round_le_15 [OF v(2)]
  show ?thesis by (simp add: snapshot_ok_def snapshot_def)
qed

lemma window_ok_cong:
  assumes "sim_battery v = sim_battery w" and "sim_speed v = sim_speed w"
  shows "window_ok v = window_ok w"
  using assms by (simp add: window_ok_def)

lemma handle_ok:
  assumes "event_ok ev" and "window_ok w"
  shows "window_ok (fst (handle ev w)) \<and> list_all snapshot_ok (snapshots_of (fst (snd (handle ev w))))"
proof (cases ev)
  case (Tick e)
  with assms(1) have s: "slider_ok e" by (simp add: event_ok_def)
  have a: "window_ok (advance e w)" using s assms(2) by (rule window_ok_advance)
  have "window_ok (fst (simulate_telemetry e w)) = window_ok (advance e w)"
    by (rule window_ok_cong) (simp_all add: simulate_telemetry_sim_fields)
  with a snapshot_ok_snapshot [OF a] Tick show ?thesis
    by (simp add: simulate_telemetry_snapshots)
next
  case (Reload e)
  then show ?thesis
    by (simp add: reload_rover_snapshots window_ok_def reload_rover_sim_fields)
qed

lemma run_gcs_Nil_proj:
  "fst (run_gcs [] w) = w" "fst (snd (run_gcs [] w)) = []" "snd (snd (run_gcs [] w)) = None"
  by simp_all

lemma run_gcs_Cons_stop:
  assumes "snd (snd (handle ev w)) \<noteq> None"
  shows "run_gcs (ev # evs) w = handle ev w"
  using assms by (cases "handle ev w") (auto split: option.splits)

lemma run_gcs_Cons_go:
  assumes "snd (snd (handle ev w)) = None"
  shows "fst (run_gcs (ev # evs) w) = fst (run_gcs evs (fst (handle ev w)))"
    and "fst (snd (run_gcs (ev # evs) w))
         = fst (snd (handle ev w)) @ fst (snd (run_gcs evs (fst (handle ev w))))"
    and "snd (snd (run_gcs (ev # evs) w)) = snd (snd (run_gcs evs (fst (handle ev w))))"
  using assms by (cases "handle ev w"; simp split: prod.splits)+

lemma run_gcs_ok:
  assumes "list_all event_ok evs" and "window_ok w"
  shows "window_ok (fst (run_gcs evs w))
         \<and> list_all snapshot_ok (snapshots_of (fst (snd (run_gcs evs w))))"
  using assms
proof (induction evs arbitrary: w)
  case Nil
  then show ?case by simp
next
  case (Cons ev evs)
  then have ev: "event_ok ev" and evs: "list_all event_ok evs" by simp_all
  note h = handle_ok [OF ev Cons.prems(2)]
  show ?case
  proof (cases "snd (snd (handle ev w)) = None")
    case True
    from h have "window_ok (fst (handle ev w))" by simp
    from Cons.IH [OF evs this] h show ?thesis
      by (simp only: run_gcs_Cons_go [OF True] snapshots_of_append list_all_append)
  next
    case False
    with h show ?thesis by (simp only: run_gcs_Cons_stop [OF False])
  qed
qed

subsection \<open>One pass of the simulator's loop, and its runs\<close>

lemma simulator_ok_init: "simulator_ok TelemetrySimulator_init"
  by (simp add: simulator_ok_def TelemetrySimulator_init_def)

lemma loop_body_speed:
  "priv_speed (fst (loop_body e s)) = max 0 (min 2.5 (priv_speed s + randn_speed e * 0.05))"
  by (simp add: loop_body_def Let_def)

lemma loop_body_dist:
  "priv_dist (fst (loop_body e s)) = priv_dist s + priv_speed (fst (loop_body e s)) * 0.1"
  by (simp add: loop_body_def Let_def)

lemma loop_body_battery:
  "priv_battery (fst (loop_body e s))
   = max 0 (priv_battery s - 0.01 - \<bar>priv_speed (fst (loop_body e s))\<bar> * 0.001)"
  by (simp add: loop_body_def Let_def)

lemma loop_body_run: "priv_run (fst (loop_body e s)) = priv_run s"
  by (simp add: loop_body_def Let_def)

lemma loop_body_payload:
  "snd (loop_body e s) =
     \<lparr>timestamp = time_time e,
      payload_battery = py_round (priv_battery (fst (loop_body e s))) 1,
      payload_speed = py_round (priv_speed (fst (loop_body e s))) 2,
      payload_distance = py_round (priv_dist (fst (loop_body e s))) 2,
      payload_temp = py_round (20 + randn_tmp e) 1,
      gps = (77.2 + randn_gps0 e * 0.0001, 28.6 + randn_gps1 e * 0.0001)\<rparr>"
  by (simp add: loop_body_def Let_def)

lemma loop_body_ok:
  assumes "priv_battery s \<le> 100"
  shows "simulator_ok (fst (loop_body e s)) \<and> payload_ok (snd (loop_body e s))"
proof -
  let ?s = "fst (loop_body e s)"
  have sp: "0 \<le> priv_speed ?s" "priv_speed ?s \<le> 2.5"
    by (simp_all add: loop_body_speed max_def min_def)
  have b0: "0 \<le> priv_battery ?s" by (simp add: loop_body_battery)
  have b1: "priv_battery ?s \<le> 100" using assms sp(1) by (simp add: loop_body_battery)
  from sp b0 b1 py_round_nonneg [OF b0, of 1] py_round_le_100 [OF b1]
    py_round_nonneg [OF sp(1), of 2] py_round_le_25 [OF sp(2)]
  show ?thesis
    by (simp add: simulator_ok_def payload_ok_def loop_body_payload)
qed

lemma loop_iter_eq:
  "loop_iter e w =
     (if loop_threads w = 0 then (w, [])
      else if priv_run (tele w)
           then (w\<lparr>tele := fst (loop_body e (tele w))\<rparr>, [snd (loop_body e (tele w))])
           else (w\<lparr>loop_threads := loop_threads w - 1\<rparr>, []))"
  by (simp add: loop_iter_def split: prod.splits)

lemma tele_step_ok:
  assumes "simulator_ok (tele w)"
  shows "simulator_ok (tele (fst (tele_step ev w))) \<and> list_all payload_ok (snd (tele_step ev w))"
proof (cases ev)
  case CallStart
  with assms show ?thesis by (simp add: start_def)
next
  case CallStop
  with assms show ?thesis by (simp add: stop_def simulator_ok_def)
next
  case (LoopIter e)
  from assms have "priv_battery (tele w) \<le> 100" by (simp add: simulator_ok_def)
  from loop_body_ok [OF this, of e] assms LoopIter show ?thesis
    by (simp add: loop_iter_eq)
qed

lemma run_tele_Cons_proj:
  "fst (run_tele (ev # evs) w) = fst (run_tele evs (fst (tele_step ev w)))"
  "snd (run_tele (ev # evs) w) = snd (tele_step ev w) @ snd (run_tele evs (fst (tele_step ev w)))"
  by (simp_all split: prod.splits)

lemma run_tele_ok:
  assumes "simulator_ok (tele w)"
  shows "simulator_ok (tele (fst (run_tele evs w))) \<and> list_all payload_ok (snd (run_tele evs w))"
  using assms
proof (induction evs arbitrary: w)
  case Nil
  then show ?case by simp
next
  case (Cons ev evs)
  note st = tele_step_ok [OF Cons.prems, of ev]
  then have "simulator_ok (tele (fst (tele_step ev w)))" by simp
  from Cons.IH [OF this] st show ?case
    by (simp only: run_tele_Cons_proj list_all_append)
qed

subsection \<open>The distance along a run\<close>

lemma snapshot_distance: "distance (snapshot w) = py_round (sim_distance w) 1"
  by (simp add: snapshot_def)

lemma simulate_telemetry_distance_mono:
  assumes "slider_ok e"
  shows "sim_distance w \<le> sim_distance (fst (simulate_telemetry e w))"
  using advance_distance_mono [OF assms, of w] by (simp add: simulate_telemetry_sim_fields)

lemma simulate_telemetry_snapshot_distance:
  "list_all (\<lambda>t. distance t = distance (snapshot (fst (simulate_telemetry e w))))
     (snapshots_of (fst (snd (simulate_telemetry e w))))"
  by (simp add: simulate_telemetry_snapshots snapshot_distance simulate_telemetry_sim_fields)

lemma list_all_mono_bound:
  fixes c :: real
  assumes "list_all (\<lambda>t. c \<le> f t) xs" and "b \<le> c"
  shows "list_all (\<lambda>t. b \<le> f t) xs"
  using assms by (induction xs) auto

lemma sorted_append_bound:
  fixes c :: real
  assumes "list_all (\<lambda>t. f t = c) xs" and "list_all (\<lambda>t. c \<le> f t) ys" and "sorted (map f ys)"
  shows "sorted (map f (xs @ ys))"
  using assms by (induction xs) (auto simp: list_all_iff)

lemma run_gcs_ticks_distance:
  assumes "list_all slider_ok es"
  shows "sim_distance w \<le> sim_distance (fst (run_gcs (map Tick es) w))
    \<and> sorted (map distance (snapshots_of (fst (snd (run_gcs (map Tick es) w)))))
    \<and> list_all (\<lambda>t. distance (snapshot w) \<le> distance t)
         (snapshots_of (fst (snd (run_gcs (map Tick es) w))))"
  using assms
proof (induction es arbitrary: w)
  case Nil
  show ?case by simp
next
  case (Cons e es)
  then have e: "slider_ok e" and es: "list_all slider_ok es" by simp_all
  let ?h = "simulate_telemetry e w"
  let ?w1 = "fst ?h"
  let ?s1 = "snapshots_of (fst (snd ?h))"
  have m: "sim_distance w \<le> sim_distance ?w1" using e by (rule simulate_telemetry_distance_mono)
  then have pm: "distance (snapshot w) \<le> distance (snapshot ?w1)"
    by (simp add: snapshot_distance py_round_mono)
  have eq: "list_all (\<lambda>t. distance t = distance (snapshot ?w1)) ?s1"
    by (rule simulate_telemetry_snapshot_distance)
  then have ge: "list_all (\<lambda>t. distance (snapshot w) \<le> distance t) ?s1"
    using pm by (auto simp: list_all_iff)
  show ?case
  proof (cases "snd (snd (handle (Tick e) w)) = None")
    case True
    note ih = Cons.IH [OF es, of ?w1]
    let ?s2 = "snapshots_of (fst (snd (run_gcs (map Tick es) ?w1)))"
    from ih have a: "sim_distance ?w1 \<le> sim_distance (fst (run_gcs (map Tick es) ?w1))"
      and b: "sorted (map distance ?s2)"
      and c: "list_all (\<lambda>t. distance (snapshot ?w1) \<le> distance t) ?s2" by simp_all
    have 1: "sorted (map distance (?s1 @ ?s2))" using eq c b by (rule sorted_append_bound)
    have 2: "list_all (\<lambda>t. distance (snapshot w) \<le> distance t) ?s2"
      using c pm by (rule list_all_mono_bound)
    from m a 1 2 ge show ?thesis
      using run_gcs_Cons_go [OF True, of "map Tick es"]
      by (simp add: snapshots_of_append del: run_gcs.simps)
  next
    case False
    have 1: "sorted (map distance ?s1)"
      using sorted_append_bound [OF eq, of "[]"] by simp
    from m 1 ge show ?thesis
      using run_gcs_Cons_stop [OF False, of "map Tick es"]
      by (simp del: run_gcs.simps)
  qed
qed

lemma tele_step_distance:
  "priv_dist (tele w) \<le> priv_dist (tele (fst (tele_step ev w)))
   \<and> list_all (\<lambda>p. payload_distance p = py_round (priv_dist (tele (fst (tele_step ev w)))) 2)
        (snd (tele_step ev w))"
proof (cases ev)
  case CallStart
  then show ?thesis by (simp add: start_def)
next
  case CallStop
  then show ?thesis by (simp add: stop_def)
next
  case (LoopIter e)
  have "0 \<le> priv_speed (fst (loop_body e (tele w)))" by (simp add: loop_body_speed)
  then have "priv_dist (tele w) \<le> priv_dist (fst (loop_body e (tele w)))"
    by (simp add: loop_body_dist)
  with LoopIter show ?thesis by (simp add: loop_iter_eq loop_body_payload)
qed

lemma run_tele_distance:
  "priv_dist (tele w) \<le> priv_dist (tele (fst (run_tele evs w)))
   \<and> sorted (map payload_distance (snd (run_tele evs w)))
   \<and> list_all (\<lambda>p. py_round (priv_dist (tele w)) 2 \<le> payload_distance p) (snd (run_tele evs w))"
proof (induction evs arbitrary: w)
  case Nil
  show ?case by simp
next
  case (Cons ev evs)
  let ?w1 = "fst (tele_step ev w)"
  let ?p1 = "snd (tele_step ev w)"
  let ?p2 = "snd (run_tele evs ?w1)"
  from tele_step_distance [of w ev]
  have m: "priv_dist (tele w) \<le> priv_dist (tele ?w1)"
    and eq: "list_all (\<lambda>p. payload_distance p = py_round (priv_dist (tele ?w1)) 2) ?p1" by simp_all
  from Cons.IH [of ?w1]
  have a: "priv_dist (tele ?w1) \<le> priv_dist (tele (fst (run_tele evs ?w1)))"
    and b: "sorted (map payload_distance ?p2)"
    and c: "list_all (\<lambda>p. py_round (priv_dist (tele ?w1)) 2 \<le> payload_distance p) ?p2" by simp_all
  have pm: "py_round (priv_dist (tele w)) 2 \<le> py_round (priv_dist (tele ?w1)) 2"
    using m by (rule py_round_mono)
  have 1: "sorted (map payload_distance (?p1 @ ?p2))" using eq c b by (rule sorted_append_bound)
  have 2: "list_all (\<lambda>p. py_round (priv_dist (tele w)) 2 \<le> payload_distance p) ?p2"
    using c pm by (rule list_all_mono_bound)
  have 3: "list_all (\<lambda>p. py_round (priv_dist (tele w)) 2 \<le> payload_distance p) ?p1"
    using eq pm by (auto simp: list_all_iff)
  from m a 1 2 3 show ?case
    by (simp only: run_tele_Cons_proj list_all_append) simp
qed

subsection \<open>After \<^verbatim>\<open>stop\<close>\<close>

lemma tele_step_stopped:
  assumes "\<not> priv_run (tele w)"
  shows "\<not> priv_run (tele (fst (tele_step ev w))) \<and> snd (tele_step ev w) = []"
  using assms by (cases ev) (simp_all add: start_def stop_def loop_iter_eq)

lemma run_tele_stopped:
  assumes "\<not> priv_run (tele w)"
  shows "\<not> priv_run (tele (fst (run_tele evs w))) \<and> snd (run_tele evs w) = []"
  using assms
proof (induction evs arbitrary: w)
  case Nil
  then show ?case by simp
next
  case (Cons ev evs)
  note st = tele_step_stopped [OF Cons.prems, of ev]
  then have "\<not> priv_run (tele (fst (tele_step ev w)))" by simp
  from Cons.IH [OF this] st show ?case
    by (simp only: run_tele_Cons_proj) simp
qed

subsection \<open>Starting and stopping twice\<close>

lemma activate_idem: "activate (activate c) = activate c"
  by (simp add: activate_def fpv_log_def start_video_thread_def Let_def)

lemma activate_running: "fpv_running c \<Longrightarrow> activate c = c"
  by (simp add: activate_def)

lemma start_capture_idem: "start_capture (start_capture m) = start_capture m"
  by (simp add: start_capture_def)

lemma stop_capture_idem: "stop_capture (stop_capture m) = stop_capture m"
  by (simp add: stop_capture_def)

lemma stop_idem: "stop (stop w) = stop w"
  by (simp add: stop_def)

lemma deactivate_twice:
  "fpv_running (deactivate (deactivate c)) = fpv_running (deactivate c)
   \<and> timer_active (deactivate (deactivate c)) = timer_active (deactivate c)
   \<and> cap (deactivate (deactivate c)) = cap (deactivate c)
   \<and> log_area (deactivate (deactivate c))
       = log_area (deactivate c) @ [''>>> FPV Controller Deactivated <<<'']"
  by (simp add: deactivate_def fpv_log_def)

subsection \<open>Timestamps and clock readings\<close>

lemma clock_readings_Cons: "clock_readings (ev # evs) = clock_readings [ev] @ clock_readings evs"
  by (cases ev) simp_all

lemma tele_step_timestamps:
  "map timestamp (snd (tele_step ev w)) = [] \<or> map timestamp (snd (tele_step ev w)) = clock_readings [ev]"
  by (cases ev) (simp_all add: loop_iter_eq loop_body_payload)

lemma run_tele_timestamps_subset:
  "set (map timestamp (snd (run_tele evs w))) \<subseteq> set (clock_readings evs)"
proof (induction evs arbitrary: w)
  case Nil
  show ?case by simp
next
  case (Cons ev evs)
  have a: "set (map timestamp (snd (tele_step ev w))) \<subseteq> set (clock_readings [ev])"
  proof (rule disjE [OF tele_step_timestamps [of ev w]])
    assume "map timestamp (snd (tele_step ev w)) = []"
    then show ?thesis by (simp only: list.set empty_subsetI)
  next
    assume "map timestamp (snd (tele_step ev w)) = clock_readings [ev]"
    then show ?thesis by (simp only: subset_refl)
  qed
  have b: "set (map timestamp (snd (run_tele evs (fst (tele_step ev w))))) \<subseteq> set (clock_readings evs)"
    by (rule Cons.IH)
  have c: "map timestamp (snd (run_tele (ev # evs) w))
      = map timestamp (snd (tele_step ev w)) @ map timestamp (snd (run_tele evs (fst (tele_step ev w))))"
    by (simp only: run_tele_Cons_proj map_append)
  show ?case
    unfolding c clock_readings_Cons [of ev evs] set_append using a b by blast
qed

lemma sorted_wrt_less_subset:
  fixes xs ys zs :: "real list"
  assumes "sorted_wrt (<) (xs @ ys)" and "sorted_wrt (<) zs" and "set zs \<subseteq> set ys"
  shows "sorted_wrt (<) (xs @ zs)"
  using assms by (auto simp: sorted_wrt_append)

lemma run_tele_timestamps_sorted:
  assumes "sorted_wrt (<) (clock_readings evs)"
  shows "sorted_wrt (<) (map timestamp (snd (run_tele evs w)))"
  using assms
proof (induction evs arbitrary: w)
  case Nil
  show ?case by simp
next
  case (Cons ev evs)
  let ?w1 = "fst (tele_step ev w)"
  let ?rest = "map timestamp (snd (run_tele evs ?w1))"
  from Cons.prems have p: "sorted_wrt (<) (clock_readings [ev] @ clock_readings evs)"
    by (simp only: clock_readings_Cons [of ev evs])
  then have s: "sorted_wrt (<) (clock_readings evs)" by (simp add: sorted_wrt_append)
  have ih: "sorted_wrt (<) ?rest" using s by (rule Cons.IH)
  have sub: "set ?rest \<subseteq> set (clock_readings evs)" by (rule run_tele_timestamps_subset)
  have c: "map timestamp (snd (run_tele (ev # evs) w))
      = map timestamp (snd (tele_step ev w)) @ ?rest"
    by (simp only: run_tele_Cons_proj map_append)
  from tele_step_timestamps [of ev w] show ?case
  proof
    assume "map timestamp (snd (tele_step ev w)) = []"
    with ih c show ?thesis by simp
  next
    assume "map timestamp (snd (tele_step ev w)) = clock_readings [ev]"
    with sorted_wrt_less_subset [OF p ih sub] c show ?thesis by simp
  qed
qed


lemma run_tele_running_timestamps:
  assumes "priv_run (tele w)" and "0 < loop_threads w"
  shows "map timestamp (snd (run_tele (map LoopIter es) w)) = map time_time es"
  using assms
proof (induction es arbitrary: w)
  case Nil
  show ?case by simp
next
  case (Cons e es)
  let ?w1 = "fst (tele_step (LoopIter e) w)"
  from Cons.prems have r: "priv_run (tele ?w1)" and t: "0 < loop_threads ?w1"
    by (simp_all add: loop_iter_eq loop_body_run)
  from Cons.prems have "map timestamp (snd (tele_step (LoopIter e) w)) = [time_time e]"
    by (simp add: loop_iter_eq loop_body_payload)
  with Cons.IH [OF r t] show ?case
    by (simp only: list.map run_tele_Cons_proj map_append) simp
qed

subsection \<open>What the published values depend on\<close>

lemma loop_body_no_clock:
  "fst (loop_body (e\<lparr>time_time := c\<rparr>) s) = fst (loop_body e s)
   \<and> no_timestamp (snd (loop_body (e\<lparr>time_time := c\<rparr>) s)) = no_timestamp (snd (loop_body e s))"
  by (simp add: loop_body_def Let_def no_timestamp_def)

lemma no_timestamp_idem: "no_timestamp (no_timestamp p) = no_timestamp p"
  by (simp add: no_timestamp_def)

lemma tele_step_no_clock:
  "fst (tele_step (no_clock ev) w) = fst (tele_step ev w)
   \<and> map no_timestamp (snd (tele_step (no_clock ev) w)) = map no_timestamp (snd (tele_step ev w))"
  using loop_body_no_clock by (cases ev) (simp_all add: loop_iter_eq)

lemma run_tele_no_clock:
  "fst (run_tele (map no_clock evs) w) = fst (run_tele evs w)
   \<and> map no_timestamp (snd (run_tele (map no_clock evs) w)) = map no_timestamp (snd (run_tele evs w))"
proof (induction evs arbitrary: w)
  case Nil
  show ?case by simp
next
  case (Cons ev evs)
  from tele_step_no_clock [of ev w] Cons.IH [of "fst (tele_step ev w)"] show ?case
    by (simp only: list.map run_tele_Cons_proj map_append)
qed

lemma sim_fields_advance:
  assumes "sim_fields w = sim_fields v" and "sim_inputs e = sim_inputs f"
  shows "sim_fields (advance e w) = sim_fields (advance f v)"
  using assms by (simp add: sim_fields_def sim_inputs_def advance_def Let_def)

lemma sim_fields_snapshot:
  assumes "sim_fields w = sim_fields v" shows "snapshot w = snapshot v"
  using assms by (simp add: sim_fields_def snapshot_def)

lemma sim_fields_simulate_telemetry:
  "sim_fields (fst (simulate_telemetry e w)) = sim_fields (advance e w)"
  by (simp add: sim_fields_def simulate_telemetry_sim_fields)

lemma run_gcs_ticks_determined:
  assumes "list_all quiet es" and "list_all quiet fs"
    and "map sim_inputs es = map sim_inputs fs" and "sim_fields w = sim_fields v"
  shows "snapshots_of (fst (snd (run_gcs (map Tick es) w)))
       = snapshots_of (fst (snd (run_gcs (map Tick fs) v)))"
  using assms
proof (induction es arbitrary: fs w v)
  case Nil
  then show ?case by simp
next
  case (Cons e es)
  then obtain f fs' where fs: "fs = f # fs'" by (cases fs) auto
  with Cons.prems have qe: "quiet e" and qes: "list_all quiet es"
    and qf: "quiet f" and qfs: "list_all quiet fs'"
    and i: "sim_inputs e = sim_inputs f" and ins: "map sim_inputs es = map sim_inputs fs'"
    by simp_all
  have a: "sim_fields (advance e w) = sim_fields (advance f v)"
    using Cons.prems(4) i by (rule sim_fields_advance)
  then have s: "snapshot (advance e w) = snapshot (advance f v)" by (rule sim_fields_snapshot)
  have w1: "sim_fields (fst (simulate_telemetry e w)) = sim_fields (fst (simulate_telemetry f v))"
    using a by (simp add: sim_fields_simulate_telemetry)
  have ne: "snd (snd (handle (Tick e) w)) = None" using simulate_telemetry_quiet [OF qe, of w] by simp
  have nf: "snd (snd (handle (Tick f) v)) = None" using simulate_telemetry_quiet [OF qf, of v] by simp
  have de: "snapshots_of (fst (snd (handle (Tick e) w))) = [snapshot (advance e w)]"
    using qe by (simp add: simulate_telemetry_snapshots quiet_def)
  have df: "snapshots_of (fst (snd (handle (Tick f) v))) = [snapshot (advance f v)]"
    using qf by (simp add: simulate_telemetry_snapshots quiet_def)
  from Cons.IH [OF qes qfs ins w1] s de df show ?case
    unfolding fs list.map
    by (simp only: run_gcs_Cons_go [OF ne] run_gcs_Cons_go [OF nf] snapshots_of_append handle.simps)
qed


subsection \<open>What the panel and the log have recorded after a run of ticks\<close>

lemma run_gcs_ticks_quiet_widgets:
  assumes "list_all quiet es"
  shows "map snd (small_status (telemetry (fst (run_gcs (map Tick es) w))))
      = map snd (small_status (telemetry w))
        @ map battery (snapshots_of (fst (snd (run_gcs (map Tick es) w))))
    \<and> map snd (terminal (log_widget (fst (run_gcs (map Tick es) w))))
      = map snd (terminal (log_widget w))
        @ map (\<lambda>t. LogTelemetry (battery t) (speed t) (distance t))
            (snapshots_of (fst (snd (run_gcs (map Tick es) w))))"
  using assms
proof (induction es arbitrary: w)
  case Nil
  show ?case by simp
next
  case (Cons e es)
  then have q: "quiet e" and qs: "list_all quiet es" by simp_all
  note step = simulate_telemetry_quiet [OF q, of w]
  let ?w1 = "fst (handle (Tick e) w)"
  have ne: "snd (snd (handle (Tick e) w)) = None" using step by simp
  have sn: "snapshots_of (fst (snd (handle (Tick e) w))) = [snapshot (advance e w)]"
    using step by (simp add: snapshots_of_notifications)
  have p1: "map snd (small_status (telemetry ?w1))
      = map snd (small_status (telemetry w)) @ [battery (snapshot (advance e w))]"
    using step by (simp add: panel_update_def)
  have l1: "map snd (terminal (log_widget ?w1))
      = map snd (terminal (log_widget w))
        @ [LogTelemetry (battery (snapshot (advance e w))) (speed (snapshot (advance e w)))
             (distance (snapshot (advance e w)))]"
    using step by (simp add: log_widget_log_def)
  from Cons.IH [OF qs, of ?w1] p1 l1 sn show ?case
    unfolding list.map
    by (simp only: run_gcs_Cons_go [OF ne] snapshots_of_append map_append) simp
qed

section \<open>The scenario of two ticks at full throttle\<close>

text \<open>
  Claim C3, as the spec states it, fails on the code: after the first tick at full
  throttle the distance is 44.4, not about 1.5 (the code adds the position step times
  111000, the metres in a degree, not the speed times the tick interval).
\<close>

theorem first_tick_distance_counterexample:
  "\<not> approx (sim_distance (advance full_throttle (MainWindow_init ''12:00:00''))) 1.5"
  by (simp add: approx_def advance_sim_distance full_throttle_def MainWindow_init_def)

text \<open>
  Claim C3, amended: from the initial state (battery 100), with the slider at 255 (a
  control fraction of 1.0; the drain coefficient 0.02, the idle drain 0.05 and the
  maximal speed 1.5 are the code's constants), whatever the noise, the first tick gives
  speed 1.5, battery 99.92 and distance 44.4, and the second tick gives battery 99.84
  and distance 88.8. In general a tick adds (slider / 255) * 0.0004 * 111000 to the
  distance, and sets the battery to max(0, battery - speed' * 0.02 - 0.05).
\<close>

theorem first_two_ticks_full_throttle:
  "sim_speed (advance (e1\<lparr>slider := 255\<rparr>) (MainWindow_init now)) = 1.5
   \<and> sim_battery (advance (e1\<lparr>slider := 255\<rparr>) (MainWindow_init now)) = 99.92
   \<and> sim_distance (advance (e1\<lparr>slider := 255\<rparr>) (MainWindow_init now)) = 44.4
   \<and> sim_battery (advance (e2\<lparr>slider := 255\<rparr>)
        (advance (e1\<lparr>slider := 255\<rparr>) (MainWindow_init now))) = 99.84
   \<and> sim_distance (advance (e2\<lparr>slider := 255\<rparr>)
        (advance (e1\<lparr>slider := 255\<rparr>) (MainWindow_init now))) = 88.8
   \<and> sim_distance (advance e w)
       = sim_distance w + (real_of_int (slider e) / 255) * 0.0004 * 111000
   \<and> sim_battery (advance e w)
       = max 0 (sim_battery w - sim_speed (advance e w) * 0.02 - 0.05)"
  by (simp add: advance_sim_speed advance_sim_distance advance_sim_battery MainWindow_init_def)

section \<open>A widget that raises\<close>

text \<open>
  Claim C4, as the spec states it, fails on the code: when the telemetry panel raises,
  neither the map nor the log receives that snapshot, and the exception leaves
  \<^verbatim>\<open>_simulate_telemetry\<close>.
\<close>

theorem failing_panel_counterexample:
  "\<not> (MapSink \<in> fst ` set (fst (snd (simulate_telemetry panel_fails (MainWindow_init ''12:00:00''))))
      \<or> LogSink \<in> fst ` set (fst (snd (simulate_telemetry panel_fails (MainWindow_init ''12:00:00'')))))
   \<and> snd (snd (simulate_telemetry panel_fails (MainWindow_init ''12:00:00'')))
       = Some (SinkRaised TelemetrySink)"
  by (simp add: simulate_telemetry_def Let_def panel_fails_def full_throttle_def)

text \<open>
  Claim C4, amended: \<^verbatim>\<open>_simulate_telemetry\<close> catches nothing. The widgets are called
  in the order panel, map, log; the calls that return are those before the first widget
  that raises, that widget's exception leaves the handler, and the later widgets are not
  called for this snapshot. The simulation fields have been advanced by then in every
  case. (When no widget raises, all three receive the snapshot.)
\<close>

theorem raising_sink_ends_the_tick:
  "fst (snd (simulate_telemetry e w))
     = takeWhile (\<lambda>d. \<not> raises e (fst d)) (notifications (snapshot (advance e w)))
   \<and> snd (snd (simulate_telemetry e w))
     = map_option SinkRaised (find (raises e) [TelemetrySink, MapSink, LogSink])
   \<and> sim_battery (fst (simulate_telemetry e w)) = sim_battery (advance e w)
   \<and> sim_speed (fst (simulate_telemetry e w)) = sim_speed (advance e w)
   \<and> sim_distance (fst (simulate_telemetry e w)) = sim_distance (advance e w)"
  by (simp add: simulate_telemetry_deliveries simulate_telemetry_exn simulate_telemetry_sim_fields)

section \<open>The order of delivery\<close>

text \<open>
  Claim C5, as the spec states it, fails on the code: the three widgets are not handed
  an identical value. In one tick the panel is handed the dictionary, the map two of its
  numbers and the log three others, so the three values observed are not one value
  three times. (The code has no list of registered sinks either: the order is that of
  three fixed calls.)
\<close>

theorem sinks_observe_different_values_counterexample:
  "\<not> (\<exists>v. map snd (fst (snd (simulate_telemetry full_throttle (MainWindow_init ''12:00:00''))))
            = [v, v, v])"
proof -
  have "quiet full_throttle" by (simp add: quiet_def full_throttle_def)
  from simulate_telemetry_quiet [OF this, of "MainWindow_init ''12:00:00''"]
  show ?thesis by (simp add: notifications_def)
qed

text \<open>
  Claim C5, amended: when no widget call raises, a tick of \<^verbatim>\<open>_simulate_telemetry\<close> calls
  the telemetry panel, then the map widget, then the log widget (the fixed order of
  lines 536 to 538; there is no subscription list), all inside the handler, and each is
  handed its own part of the one dictionary \<open>t\<close> built in that tick: the panel \<open>t\<close>
  itself, the map the \<open>lat\<close> and \<open>lon\<close> of \<open>t\<close>, the log the rounded battery, speed
  and distance of \<open>t\<close>; the window after the tick is the advanced window with exactly
  these three widget updates. Over a run of ticks every tick publishes one snapshot, the
  trace of deliveries is the three deliveries of the first snapshot, then the three of
  the second, and so on (no delivery of a snapshot comes before the last delivery of the
  snapshot before it), and the panel and the log have recorded every snapshot once, in
  order.
\<close>

theorem sinks_notified_in_order:
  assumes "quiet e" and "list_all quiet es"
  shows "simulate_telemetry e w =
      ((advance e w)\<lparr>
          telemetry := panel_update (strftime e) (snapshot (advance e w)) (telemetry w),
          map_widget := update_position (webengine e) (lat (snapshot (advance e w)))
                          (lon (snapshot (advance e w))) (map_widget w),
          log_widget := log_widget_log (strftime e)
                          (LogTelemetry (battery (snapshot (advance e w)))
                             (speed (snapshot (advance e w))) (distance (snapshot (advance e w))))
                          (log_widget w)\<rparr>,
       [(TelemetrySink, PanelObs (snapshot (advance e w))),
        (MapSink, MapObs (lat (snapshot (advance e w))) (lon (snapshot (advance e w)))),
        (LogSink, LogObs (LogTelemetry (battery (snapshot (advance e w)))
                            (speed (snapshot (advance e w))) (distance (snapshot (advance e w)))))],
       None)
    \<and> snd (snd (run_gcs (map Tick es) w)) = None
    \<and> length (snapshots_of (fst (snd (run_gcs (map Tick es) w)))) = length es
    \<and> fst (snd (run_gcs (map Tick es) w))
        = concat (map notifications (snapshots_of (fst (snd (run_gcs (map Tick es) w)))))
    \<and> map snd (small_status (telemetry (fst (run_gcs (map Tick es) w))))
        = map snd (small_status (telemetry w))
          @ map battery (snapshots_of (fst (snd (run_gcs (map Tick es) w))))
    \<and> map snd (terminal (log_widget (fst (run_gcs (map Tick es) w))))
        = map snd (terminal (log_widget w))
          @ map (\<lambda>t. LogTelemetry (battery t) (speed t) (distance t))
              (snapshots_of (fst (snd (run_gcs (map Tick es) w))))"
proof -
  have "lat (snapshot (advance e w)) = sim_lat (advance e w)"
    and "lon (snapshot (advance e w)) = sim_lon (advance e w)"
    by (simp_all add: snapshot_def)
  with simulate_telemetry_quiet [OF assms(1), of w]
  have "simulate_telemetry e w =
      ((advance e w)\<lparr>
          telemetry := panel_update (strftime e) (snapshot (advance e w)) (telemetry w),
          map_widget := update_position (webengine e) (lat (snapshot (advance e w)))
                          (lon (snapshot (advance e w))) (map_widget w),
          log_widget := log_widget_log (strftime e)
                          (LogTelemetry (battery (snapshot (advance e w)))
                             (speed (snapshot (advance e w))) (distance (snapshot (advance e w))))
                          (log_widget w)\<rparr>,
       [(TelemetrySink, PanelObs (snapshot (advance e w))),
        (MapSink, MapObs (lat (snapshot (advance e w))) (lon (snapshot (advance e w)))),
        (LogSink, LogObs (LogTelemetry (battery (snapshot (advance e w)))
                            (speed (snapshot (advance e w))) (distance (snapshot (advance e w)))))],
       None)"
    by (simp add: notifications_def)
  with run_gcs_ticks_quiet [OF assms(2), of w] run_gcs_ticks_quiet_widgets [OF assms(2), of w]
  show ?thesis by blast
qed

theorem sinks_notified_in_order_witness:
  "quiet full_throttle \<and> list_all quiet [full_throttle, idle]
   \<and> fst (snd (simulate_telemetry full_throttle (MainWindow_init ''12:00:00'')))
       = [(TelemetrySink, PanelObs (snapshot (advance full_throttle (MainWindow_init ''12:00:00'')))),
          (MapSink, MapObs (lat (snapshot (advance full_throttle (MainWindow_init ''12:00:00''))))
                      (lon (snapshot (advance full_throttle (MainWindow_init ''12:00:00''))))),
          (LogSink, LogObs (LogTelemetry
             (battery (snapshot (advance full_throttle (MainWindow_init ''12:00:00''))))
             (speed (snapshot (advance full_throttle (MainWindow_init ''12:00:00''))))
             (distance (snapshot (advance full_throttle (MainWindow_init ''12:00:00''))))))]
   \<and> length (snapshots_of (fst (snd (run_gcs (map Tick [full_throttle, idle])
        (MainWindow_init ''12:00:00''))))) = 2"
proof -
  have a: "quiet full_throttle" by (simp add: quiet_def full_throttle_def)
  have b: "list_all quiet [full_throttle, idle]" by (simp add: quiet_def full_throttle_def idle_def)
  note t = sinks_notified_in_order [OF a b, of "MainWindow_init ''12:00:00''"]
  from t have c: "fst (snd (simulate_telemetry full_throttle (MainWindow_init ''12:00:00'')))
       = [(TelemetrySink, PanelObs (snapshot (advance full_throttle (MainWindow_init ''12:00:00'')))),
          (MapSink, MapObs (lat (snapshot (advance full_throttle (MainWindow_init ''12:00:00''))))
                      (lon (snapshot (advance full_throttle (MainWindow_init ''12:00:00''))))),
          (LogSink, LogObs (LogTelemetry
             (battery (snapshot (advance full_throttle (MainWindow_init ''12:00:00''))))
             (speed (snapshot (advance full_throttle (MainWindow_init ''12:00:00''))))
             (distance (snapshot (advance full_throttle (MainWindow_init ''12:00:00''))))))]"
    by (simp del: run_gcs.simps)
  from t have d: "length (snapshots_of (fst (snd (run_gcs (map Tick [full_throttle, idle])
        (MainWindow_init ''12:00:00''))))) = length [full_throttle, idle]"
    by blast
  from a b c d show ?thesis by (simp del: run_gcs.simps list.map)
qed

section \<open>The clamping invariant\<close>

text \<open>
  Claim C1: in every state the window reaches from its initial state by ticks (slider
  within its range 0 to 255) and reloads, and in every dictionary it publishes, the
  battery is within [0, 100] and the speed within [0, 1.5]; in every state the simulator
  of \<^verbatim>\<open>GCS_MODEL_1.py\<close> reaches by starts, stops and passes of its loop, and in every
  payload it emits, the battery is within [0, 100] and the speed within [0, 2.5]; and a
  tick at full throttle from a battery of 0.03 leaves the battery at 0.
\<close>

theorem battery_and_speed_clamped:
  assumes "list_all event_ok evs"
  shows "window_ok (fst (run_gcs evs (MainWindow_init now)))
    \<and> list_all snapshot_ok (snapshots_of (fst (snd (run_gcs evs (MainWindow_init now)))))
    \<and> simulator_ok (tele (fst (run_tele tevs tele_world_init)))
    \<and> list_all payload_ok (snd (run_tele tevs tele_world_init))
    \<and> sim_battery (advance (e\<lparr>slider := 255\<rparr>) (w\<lparr>sim_battery := 0.03\<rparr>)) = 0"
proof -
  have "simulator_ok (tele tele_world_init)"
    by (simp add: tele_world_init_def simulator_ok_init)
  from run_gcs_ok [OF assms window_ok_init, of now] run_tele_ok [OF this, of tevs]
  show ?thesis
    by (simp add: advance_sim_battery advance_sim_speed)
qed

theorem battery_and_speed_clamped_witness:
  "list_all event_ok [Tick full_throttle, Reload idle, Tick idle]
   \<and> list_all snapshot_ok (snapshots_of (fst (snd
        (run_gcs [Tick full_throttle, Reload idle, Tick idle] (MainWindow_init ''12:00:00'')))))
   \<and> list_all payload_ok (snd (run_tele [CallStart, LoopIter calm] tele_world_init))
   \<and> sim_battery (advance (full_throttle\<lparr>slider := 255\<rparr>)
        ((MainWindow_init ''12:00:00'')\<lparr>sim_battery := 0.03\<rparr>)) = 0"
  using battery_and_speed_clamped [of "[Tick full_throttle, Reload idle, Tick idle]"
      "''12:00:00''" "[CallStart, LoopIter calm]" full_throttle "MainWindow_init ''12:00:00''"]
  by (simp add: event_ok_def slider_ok_def full_throttle_def idle_def)

section \<open>The distance travelled\<close>

text \<open>
  Claim C2, as the spec states it, fails on the code: the Reload button of
  \<^verbatim>\<open>GCS_MODEL.py\<close> sets the distance back to 0, so the window that has published a
  distance of 44.4 publishes 0.0 at the first tick after a reload.
\<close>

theorem reload_resets_distance_counterexample:
  "\<not> sorted (map distance (snapshots_of (fst (snd
      (run_gcs [Tick full_throttle, Reload idle, Tick idle] (MainWindow_init ''12:00:00''))))))"
  by (simp add: simulate_telemetry_def reload_rover_def Let_def full_throttle_def idle_def
      MainWindow_init_def advance_def snapshot_def py_round_def round_half_even_def
      panel_update_def update_position_def log_widget_log_def home_lat_def home_lon_def)

text \<open>
  Claim C2, amended: a tick never decreases the distance, whatever the slider (within
  its range) and the noise, in the simulation fields and in the published dictionary;
  over a run of ticks with no reload between them the published distances are
  non-decreasing; the reload of \<^verbatim>\<open>GCS_MODEL.py\<close> sets the distance back to 0. The
  simulator of \<^verbatim>\<open>GCS_MODEL_1.py\<close> has no reset: over every run of starts, stops and
  passes of its loop the distance and the emitted distances are non-decreasing.
\<close>

theorem distance_non_decreasing_between_reloads:
  assumes "slider_ok e" and "list_all slider_ok es"
  shows "sim_distance w \<le> sim_distance (fst (simulate_telemetry e w))
    \<and> distance (snapshot w) \<le> distance (snapshot (fst (simulate_telemetry e w)))
    \<and> sorted (map distance (snapshots_of (fst (snd (run_gcs (map Tick es) w)))))
    \<and> priv_dist (tele tw) \<le> priv_dist (tele (fst (run_tele tevs tw)))
    \<and> sorted (map payload_distance (snd (run_tele tevs tw)))"
  using simulate_telemetry_distance_mono [OF assms(1), of w]
    run_gcs_ticks_distance [OF assms(2), of w] run_tele_distance [of tw tevs]
  by (simp add: snapshot_distance py_round_mono)

theorem distance_non_decreasing_between_reloads_witness:
  "slider_ok full_throttle \<and> list_all slider_ok [full_throttle, idle]
   \<and> sorted (map distance (snapshots_of (fst (snd
        (run_gcs (map Tick [full_throttle, idle]) (MainWindow_init ''12:00:00''))))))
   \<and> sorted (map payload_distance (snd (run_tele [CallStart, LoopIter calm, LoopIter calm] tele_world_init)))"
  using distance_non_decreasing_between_reloads [of full_throttle "[full_throttle, idle]"
      "MainWindow_init ''12:00:00''" tele_world_init "[CallStart, LoopIter calm, LoopIter calm]"]
  by (simp add: slider_ok_def full_throttle_def idle_def)

section \<open>What a reload changes\<close>

text \<open>
  Claim C10, as stated, fails on the code: the reload also writes to the mission log
  (and hands the home position to the map widget), so not every other part of the
  window is left as it was.
\<close>

theorem reload_rover_log_counterexample:
  "log_widget (fst (reload_rover idle (MainWindow_init ''12:00:00'')))
   \<noteq> log_widget (MainWindow_init ''12:00:00'')"
  by (simp add: reload_rover_def Let_def idle_def full_throttle_def MainWindow_init_def
      log_widget_log_def)

text \<open>
  Claim C10, amended: the reload sets latitude and longitude to 28.6 and 77.2, the
  distance to 0, the battery to 100 and the speed to 0, whether or not a widget call
  raises afterwards; the temperature, the telemetry panel and the lock flag of the map
  are left as they were; when no widget call raises, the only other changes are one line
  appended to the mission log and the home position handed to the map widget.
\<close>

theorem reload_rover_frame:
  "reload_rover (e\<lparr>raises := (\<lambda>s. False)\<rparr>) w =
     (w\<lparr>sim_lat := 28.6, sim_lon := 77.2, sim_distance := 0, sim_battery := 100, sim_speed := 0,
        log_widget := log_widget_log (strftime e)
           (LogText ''Rover reloaded / reset to home position'') (log_widget w),
        map_widget := update_position (webengine e) 28.6 77.2 (map_widget w)\<rparr>,
      [(LogSink, LogObs (LogText ''Rover reloaded / reset to home position'')),
       (MapSink, MapObs 28.6 77.2)],
      None)
   \<and> sim_lat (fst (reload_rover e w)) = 28.6
   \<and> sim_lon (fst (reload_rover e w)) = 77.2
   \<and> sim_distance (fst (reload_rover e w)) = 0
   \<and> sim_battery (fst (reload_rover e w)) = 100
   \<and> sim_speed (fst (reload_rover e w)) = 0
   \<and> sim_temp (fst (reload_rover e w)) = sim_temp w
   \<and> telemetry (fst (reload_rover e w)) = telemetry w
   \<and> locked (map_widget (fst (reload_rover e w))) = locked (map_widget w)"
  by (simp add: reload_rover_def Let_def home_lat_def home_lon_def update_position_def)

section \<open>Timestamps\<close>

text \<open>
  Claim C7, as the spec states it, fails on the code: the timestamp of a payload is the
  reading of the wall clock (\<^verbatim>\<open>time.time()\<close>) taken in that pass of the loop, and a
  wall clock that is set back between two passes gives a later payload the smaller
  timestamp. (The dictionary of \<^verbatim>\<open>GCS_MODEL.py\<close> has no timestamp at all.)
\<close>

theorem clock_set_back_counterexample:
  "\<not> sorted_wrt (<) (map timestamp (snd (run_tele
        [CallStart, LoopIter calm, LoopIter (calm\<lparr>time_time := 9\<rparr>)] tele_world_init)))"
proof -
  have r: "priv_run (tele (start tele_world_init))" and t: "0 < loop_threads (start tele_world_init)"
    by (simp_all add: start_def tele_world_init_def TelemetrySimulator_init_def)
  have "map timestamp (snd (run_tele (map LoopIter [calm, calm\<lparr>time_time := 9\<rparr>]) (start tele_world_init)))
        = map time_time [calm, calm\<lparr>time_time := 9\<rparr>]"
    using r t by (rule run_tele_running_timestamps)
  then have "map timestamp (snd (run_tele
        [CallStart, LoopIter calm, LoopIter (calm\<lparr>time_time := 9\<rparr>)] tele_world_init)) = [10, 9]"
    by (simp add: calm_def split: prod.splits)
  then show ?thesis by simp
qed

text \<open>
  Claim C7, amended: each payload of \<^verbatim>\<open>GCS_MODEL_1.py\<close> carries the wall-clock reading
  of the pass that emitted it. Whenever the readings taken by the passes of a run are
  strictly increasing, so are the timestamps of the payloads it emits; and while the
  simulator runs, every pass emits exactly one payload, stamped with its reading, in the
  order of the passes.
\<close>

theorem timestamps_follow_the_clock:
  assumes "sorted_wrt (<) (clock_readings evs)" and "priv_run (tele w)" and "0 < loop_threads w"
  shows "sorted_wrt (<) (map timestamp (snd (run_tele evs tw)))
    \<and> map timestamp (snd (run_tele (map LoopIter es) w)) = map time_time es"
  using run_tele_timestamps_sorted [OF assms(1), of tw] run_tele_running_timestamps [OF assms(2,3), of es]
  by simp

theorem timestamps_follow_the_clock_witness:
  "sorted_wrt (<) (clock_readings [CallStart, LoopIter calm, LoopIter (calm\<lparr>time_time := 11\<rparr>)])
   \<and> priv_run (tele (start tele_world_init)) \<and> 0 < loop_threads (start tele_world_init)
   \<and> sorted_wrt (<) (map timestamp (snd (run_tele
        [CallStart, LoopIter calm, LoopIter (calm\<lparr>time_time := 11\<rparr>)] tele_world_init)))
   \<and> map timestamp (snd (run_tele (map LoopIter [calm]) (start tele_world_init))) = map time_time [calm]"
proof -
  have a: "sorted_wrt (<) (clock_readings [CallStart, LoopIter calm, LoopIter (calm\<lparr>time_time := 11\<rparr>)])"
    by (simp add: calm_def)
  have r: "priv_run (tele (start tele_world_init))" and t: "0 < loop_threads (start tele_world_init)"
    by (simp_all add: start_def tele_world_init_def TelemetrySimulator_init_def)
  from timestamps_follow_the_clock [OF a r t, of tele_world_init "[calm]"] a r t
  show ?thesis by blast
qed

section \<open>Starting twice\<close>

text \<open>
  Claim C8 at the input on which the code departs from it: \<^verbatim>\<open>TelemetrySimulator.start\<close>
  has no guard. Two calls in a row on a fresh simulator leave two loop threads, every
  call adds one, a second call is never without effect, and a call after \<^verbatim>\<open>stop\<close>
  does not bring the simulator back to running. (The guarded
  \<^verbatim>\<open>FPVController.activate\<close> and \<^verbatim>\<open>MultiViewModule.start_capture\<close> are idempotent, as
  are the stops: see the lemmas on starting and stopping twice.)
\<close>

theorem second_start_spawns_second_loop:
  "loop_threads (fst (run_tele [CallStart, CallStart] tele_world_init)) = 2
   \<and> loop_threads (start (start w)) = loop_threads (start w) + 1
   \<and> start (start w) \<noteq> start w
   \<and> \<not> priv_run (tele (start (stop w)))"
proof -
  have "loop_threads (start (start w)) \<noteq> loop_threads (start w)" by (simp add: start_def)
  then have "start (start w) \<noteq> start w" by metis
  then show ?thesis by (simp add: start_def stop_def tele_world_init_def)
qed

section \<open>Stopping for good\<close>

text \<open>
  Claim C9: once \<^verbatim>\<open>stop\<close> has been called, no run of further calls of
  \<^verbatim>\<open>start\<close> and \<^verbatim>\<open>stop\<close> and further steps of loop threads emits a payload, and the
  flag \<^verbatim>\<open>_run\<close> stays cleared; a thread spawned by a later \<^verbatim>\<open>start\<close> leaves its
  loop at its first step, with nothing emitted and the simulator as \<^verbatim>\<open>stop\<close> left it.
\<close>

theorem stop_is_permanent:
  "snd (run_tele evs (stop w)) = []
   \<and> \<not> priv_run (tele (fst (run_tele evs (stop w))))
   \<and> run_tele [CallStart, LoopIter e] (stop w) = (stop w, [])"
proof -
  have "\<not> priv_run (tele (stop w))" by (simp add: stop_def)
  from run_tele_stopped [OF this, of evs] show ?thesis
    by (simp add: start_def stop_def loop_iter_eq)
qed

section \<open>Determinism\<close>

text \<open>
  Claim C6, as the spec states it, fails on the code: the payload of
  \<^verbatim>\<open>GCS_MODEL_1.py\<close> holds \<^verbatim>\<open>time.time()\<close>, so two runs that draw the same noise (the
  same seed) at different wall-clock times emit different payloads.
\<close>

theorem wall_clock_timestamp_counterexample:
  "snd (run_tele [CallStart, LoopIter calm] tele_world_init)
   \<noteq> snd (run_tele [CallStart, LoopIter (calm\<lparr>time_time := 11\<rparr>)] tele_world_init)"
proof -
  have r: "priv_run (tele (start tele_world_init))" and t: "0 < loop_threads (start tele_world_init)"
    by (simp_all add: start_def tele_world_init_def TelemetrySimulator_init_def)
  have 1: "map timestamp (snd (run_tele [CallStart, LoopIter calm] tele_world_init)) = [10]"
    using run_tele_running_timestamps [OF r t, of "[calm]"]
    by (simp add: calm_def split: prod.splits)
  have 2: "map timestamp (snd (run_tele [CallStart, LoopIter (calm\<lparr>time_time := 11\<rparr>)] tele_world_init)) = [11]"
    using run_tele_running_timestamps [OF r t, of "[calm\<lparr>time_time := 11\<rparr>]"]
    by (simp split: prod.splits)
  show ?thesis
  proof
    assume "snd (run_tele [CallStart, LoopIter calm] tele_world_init)
          = snd (run_tele [CallStart, LoopIter (calm\<lparr>time_time := 11\<rparr>)] tele_world_init)"
    with 1 2 show False by simp
  qed
qed

text \<open>
  Claim C6, amended: the source does not seed its generator; with the draws given, the
  sequence of dictionaries published by \<^verbatim>\<open>GCS_MODEL.py\<close> is a function of the slider
  positions and the draws alone (two runs of ticks that agree on them publish the same
  sequence, whatever the clock strings), and the payloads of \<^verbatim>\<open>GCS_MODEL_1.py\<close> are a
  function of the calls and the draws in every field but the timestamp (two runs that
  agree on everything but the clock readings emit payloads equal up to the timestamp,
  and end in the same state).
\<close>

theorem snapshots_determined_up_to_timestamp:
  assumes "list_all quiet es" and "list_all quiet fs"
    and "map sim_inputs es = map sim_inputs fs"
    and "map no_clock evs1 = map no_clock evs2"
  shows "snapshots_of (fst (snd (run_gcs (map Tick es) (MainWindow_init now1))))
       = snapshots_of (fst (snd (run_gcs (map Tick fs) (MainWindow_init now2))))
    \<and> map no_timestamp (snd (run_tele evs1 tw)) = map no_timestamp (snd (run_tele evs2 tw))
    \<and> fst (run_tele evs1 tw) = fst (run_tele evs2 tw)"
proof -
  have "sim_fields (MainWindow_init now1) = sim_fields (MainWindow_init now2)"
    by (simp add: sim_fields_def MainWindow_init_def)
  note g = run_gcs_ticks_determined [OF assms(1,2,3) this]
  from run_tele_no_clock [of evs1 tw] run_tele_no_clock [of evs2 tw] assms(4) g
  show ?thesis by simp
qed

theorem snapshots_determined_up_to_timestamp_witness:
  "list_all quiet [full_throttle] \<and> list_all quiet [full_throttle\<lparr>strftime := ''13:00:00''\<rparr>]
   \<and> map sim_inputs [full_throttle] = map sim_inputs [full_throttle\<lparr>strftime := ''13:00:00''\<rparr>]
   \<and> map no_clock [CallStart, LoopIter calm] = map no_clock [CallStart, LoopIter (calm\<lparr>time_time := 11\<rparr>)]
   \<and> snapshots_of (fst (snd (run_gcs (map Tick [full_throttle]) (MainWindow_init ''12:00:00''))))
       = snapshots_of (fst (snd (run_gcs (map Tick [full_throttle\<lparr>strftime := ''13:00:00''\<rparr>])
           (MainWindow_init ''13:00:00''))))
   \<and> map no_timestamp (snd (run_tele [CallStart, LoopIter calm] tele_world_init))
       = map no_timestamp (snd (run_tele [CallStart, LoopIter (calm\<lparr>time_time := 11\<rparr>)] tele_world_init))"
proof -
  have a: "list_all quiet [full_throttle]"
    and b: "list_all quiet [full_throttle\<lparr>strftime := ''13:00:00''\<rparr>]"
    by (simp_all add: quiet_def full_throttle_def)
  have c: "map sim_inputs [full_throttle] = map sim_inputs [full_throttle\<lparr>strftime := ''13:00:00''\<rparr>]"
    by (simp add: sim_inputs_def)
  have d: "map no_clock [CallStart, LoopIter calm]
         = map no_clock [CallStart, LoopIter (calm\<lparr>time_time := 11\<rparr>)]"
    by simp
  from snapshots_determined_up_to_timestamp [OF a b c d, of "''12:00:00''" "''13:00:00''" tele_world_init]
    a b c d
  show ?thesis by blast
qed

end
